theory Spec2Isabelle
  imports Main "HOL-Library.Word" "HOL-Library.Multiset"
begin

section \<open>Data model of main.go\<close>

text \<open>Go's \<open>int64\<close>: a 64-bit word, compared through its signed reading \<open>sint\<close>.\<close>

type_synonym int64 = "64 word"

text \<open>
  Error values. \<open>PortNotExposedError\<close> is the package-level error of main.go; every
  other error comes from a library (etcd, docker, backoff) and carries its message.
\<close>

datatype error = PortNotExposedError | LibError string

text \<open>The fields of \<open>docker.APIPort\<close> and \<open>docker.APIContainers\<close> that main.go reads.\<close>

record APIPort =
  PrivatePort :: int64
  PublicPort :: int64

record APIContainers =
  ID :: string
  Names :: "string list"
  Ports :: "APIPort list"

section \<open>Port resolution\<close>

text \<open>
  The loop of \<open>findExternalPort\<close> over \<open>container.Ports\<close>. The Go function returns the
  pair \<open>(int64, error)\<close>; a nil error is \<open>None\<close>.
\<close>

fun findExternalPort_loop :: "APIPort list \<Rightarrow> int64 \<Rightarrow> int64 \<times> error option" where
  "findExternalPort_loop [] containerPort = (- 1, Some PortNotExposedError)"
| "findExternalPort_loop (aPort # rest) containerPort =
     (if containerPort = PrivatePort aPort then
        (if sint (PublicPort aPort) < 1 \<or> sint (PublicPort aPort) > 65535
         then (- 1, Some PortNotExposedError)
         else (PublicPort aPort, None))
      else findExternalPort_loop rest containerPort)"

definition findExternalPort :: "APIContainers \<Rightarrow> int64 \<Rightarrow> int64 \<times> error option" where
  "findExternalPort container containerPort =
     findExternalPort_loop (Ports container) containerPort"

section \<open>Container names\<close>

text \<open>
  \<open>strings.TrimLeft s cutset\<close> of the Go standard library: the string without its
  leading characters that occur in \<open>cutset\<close>.
\<close>

definition TrimLeft :: "string \<Rightarrow> string \<Rightarrow> string" where
  "TrimLeft s cutset = dropWhile (\<lambda>c. c \<in> set cutset) s"

section \<open>Services, servers and configuration\<close>

text \<open>
  Modelled from the spec: the types \<open>Service\<close> and \<open>serviceDef\<close> are declared in a file
  of the repository that is not under src/. main.go reads \<open>s.key\<close>, \<open>s.re.MatchString\<close>
  and \<open>s.serviceDef.ContainerPort\<close>; the spec's Service is a definition
  \<open>{key, namePattern, containerPort}\<close> plus its compiled name-matching predicate. The
  compiled regular expression is the predicate \<open>re\<close> on container names.
\<close>

record ServiceDef =
  ContainerPort :: int64

record Service =
  key :: string
  re :: "string \<Rightarrow> bool"
  serviceDef :: ServiceDef

text \<open>
  Modelled from the spec: \<open>newServer\<close> and the Server type are not under src/. The
  spec's Server record is published under \<open>(service key, instance name)\<close> with the host
  and the port in its URL.
\<close>

record Server =
  host :: string
  port :: int64

definition newServer :: "string \<Rightarrow> int64 \<Rightarrow> Server" where
  "newServer h p = \<lparr>host = h, port = p\<rparr>"

text \<open>The fields of \<open>etcd.Node\<close> that \<open>mustGetServices\<close> reads.\<close>

record Node =
  Key :: string
  Value :: string

text \<open>The package-level \<open>opts\<close> struct.\<close>

record Opts =
  EtcdHosts :: "string list"
  VulcandEtcdBase :: string
  ServiceDefinitionBase :: string
  DockerPath :: string
  Host :: string

section \<open>The environment and the process state\<close>

text \<open>
  Everything the reconciliation calls outside main.go answers through the environment:
  the parsed options, and for each kind of call to etcd or docker the answer to the n-th
  call of that kind (so an answer may change from one call to the next). \<open>newService\<close>, \<open>Backend.put\<close> and \<open>Server.put\<close>
  are functions of the repository that are not under src/: they are parameters, with the
  arguments main.go passes them.
\<close>

record env =
  opts :: Opts
  etcd_Get :: "nat \<Rightarrow> string \<Rightarrow> error + Node list"
  docker_ListContainers :: "nat \<Rightarrow> error + APIContainers list"
  newService :: "string \<Rightarrow> string \<Rightarrow> error + Service"
  backend_put :: "nat \<Rightarrow> string \<Rightarrow> string \<Rightarrow> error option"
  server_put :: "nat \<Rightarrow> Server \<Rightarrow> string \<Rightarrow> string \<Rightarrow> string \<Rightarrow> error option"

text \<open>
  What the process does to the outside is recorded in order: every log call with its
  level, message and fields, and every call to etcd or docker with its arguments.
\<close>

datatype level = DebugLevel | InfoLevel | WarnLevel | FatalLevel

datatype fval = FStr string | FStrs "string list" | FNum int | FPort int64 | FErr error

datatype event =
    Log level string "(string \<times> fval) list"
  | EtcdCreateDir string
  | EtcdGet string
  | DockerListContainers
  | BackendPut string string
  | ServerPut Server string string string

text \<open>
  The state threaded through the program: how many calls of each kind have been made,
  and the record of events so far.
\<close>

record state =
  n_get :: nat
  n_list :: nat
  n_backend_put :: nat
  n_server_put :: nat
  trace :: "event list"

definition init_state :: state where
  "init_state = \<lparr>n_get = 0, n_list = 0, n_backend_put = 0, n_server_put = 0, trace = []\<rparr>"

text \<open>
  \<open>log.Fatal\<close> writes the entry and exits the process: a function that may call it
  either exits in a final state or returns a value and the state it reached.
\<close>

datatype 'a outcome = Exited state | Returned 'a state

fun is_exit :: "'a outcome \<Rightarrow> bool" where
  "is_exit (Exited \<sigma>) = True"
| "is_exit (Returned x \<sigma>) = False"

fun final :: "'a outcome \<Rightarrow> state" where
  "final (Exited \<sigma>) = \<sigma>"
| "final (Returned x \<sigma>) = \<sigma>"

definition emit :: "event \<Rightarrow> state \<Rightarrow> state" where
  "emit e \<sigma> = \<sigma>\<lparr>trace := trace \<sigma> @ [e]\<rparr>"

definition logf :: "level \<Rightarrow> string \<Rightarrow> (string \<times> fval) list \<Rightarrow> state \<Rightarrow> state" where
  "logf l msg fs \<sigma> = emit (Log l msg fs) \<sigma>"

section \<open>Registering containers\<close>

definition registerContainerWithVulcan ::
  "env \<Rightarrow> Service \<Rightarrow> APIContainers \<Rightarrow> string \<Rightarrow> string \<Rightarrow> state \<Rightarrow> state" where
  "registerContainerWithVulcan E svc container vulcanPath instanceName \<sigma> =
     (case findExternalPort container (ContainerPort (serviceDef svc)) of
        (p, Some err) \<Rightarrow>
          logf WarnLevel ''could not find exposed port''
            [(''error'', FErr err), (''service'', FStr (key svc)),
             (''container'', FStr (ID container)), (''container_name'', FStr instanceName),
             (''container_port'', FPort (ContainerPort (serviceDef svc)))] \<sigma>
      | (p, None) \<Rightarrow>
          (let server = newServer (Host (opts E)) p;
               r = server_put E (n_server_put \<sigma>) server vulcanPath (key svc) instanceName;
               \<sigma>1 = emit (ServerPut server vulcanPath (key svc) instanceName)
                      (\<sigma>\<lparr>n_server_put := Suc (n_server_put \<sigma>)\<rparr>)
           in case r of
                None \<Rightarrow> \<sigma>1
              | Some err \<Rightarrow>
                  logf WarnLevel ''could not add container to server registry''
                    [(''error'', FErr err), (''service'', FStr (key svc)),
                     (''container'', FStr (ID container)),
                     (''container_name'', FStr instanceName)] \<sigma>1))"

text \<open>The three nested loops of \<open>updateVulcanDFromDocker\<close>, innermost first.\<close>

fun svcs_loop ::
  "env \<Rightarrow> APIContainers \<Rightarrow> string \<Rightarrow> string \<Rightarrow> Service list \<Rightarrow> state \<Rightarrow> state" where
  "svcs_loop E c vulcanPath cleanName [] \<sigma> = \<sigma>"
| "svcs_loop E c vulcanPath cleanName (s # svcs) \<sigma> =
     svcs_loop E c vulcanPath cleanName svcs
       (if re s cleanName then
          registerContainerWithVulcan E s c vulcanPath cleanName
            (logf DebugLevel ''registering container as server''
               [(''container_name'', FStr cleanName)] \<sigma>)
        else \<sigma>)"

fun names_loop ::
  "env \<Rightarrow> Service list \<Rightarrow> APIContainers \<Rightarrow> string \<Rightarrow> string list \<Rightarrow> state \<Rightarrow> state" where
  "names_loop E svcs c vulcanPath [] \<sigma> = \<sigma>"
| "names_loop E svcs c vulcanPath (name # names) \<sigma> =
     names_loop E svcs c vulcanPath names
       (svcs_loop E c vulcanPath (TrimLeft name ''/'') svcs \<sigma>)"

fun containers_loop ::
  "env \<Rightarrow> Service list \<Rightarrow> string \<Rightarrow> APIContainers list \<Rightarrow> state \<Rightarrow> state" where
  "containers_loop E svcs vulcanPath [] \<sigma> = \<sigma>"
| "containers_loop E svcs vulcanPath (c # containers) \<sigma> =
     containers_loop E svcs vulcanPath containers
       (names_loop E svcs c vulcanPath (Names c) \<sigma>)"

definition updateVulcanDFromDocker ::
  "env \<Rightarrow> string \<Rightarrow> Service list \<Rightarrow> state \<Rightarrow> unit outcome" where
  "updateVulcanDFromDocker E vulcanPath svcs \<sigma> =
     (let r = docker_ListContainers E (n_list \<sigma>);
          \<sigma>1 = emit DockerListContainers (\<sigma>\<lparr>n_list := Suc (n_list \<sigma>)\<rparr>)
      in case r of
           Inl err \<Rightarrow>
             Exited (logf FatalLevel ''unable to list running docker containers''
                       [(''error'', FErr err)] \<sigma>1)
         | Inr containers \<Rightarrow>
             Returned () (containers_loop E svcs vulcanPath containers \<sigma>1))"

section \<open>Publishing backends\<close>

fun initializeVulcandBackends :: "env \<Rightarrow> string \<Rightarrow> Service list \<Rightarrow> state \<Rightarrow> state" where
  "initializeVulcandBackends E basepath [] \<sigma> = \<sigma>"
| "initializeVulcandBackends E basepath (s # svcs) \<sigma> =
     (let r = backend_put E (n_backend_put \<sigma>) basepath (key s);
          \<sigma>1 = emit (BackendPut basepath (key s)) (\<sigma>\<lparr>n_backend_put := Suc (n_backend_put \<sigma>)\<rparr>)
      in initializeVulcandBackends E basepath svcs
           (case r of
              None \<Rightarrow> \<sigma>1
            | Some err \<Rightarrow>
                logf WarnLevel ''could not register backend''
                  [(''error'', FErr err), (''service'', FStr (key s))] \<sigma>1))"

section \<open>Loading the service definitions\<close>

text \<open>The loop of \<open>mustGetServices\<close> over \<open>resp.Node.Nodes\<close>, appending to \<open>svcs\<close>.\<close>

fun nodes_loop ::
  "env \<Rightarrow> string \<Rightarrow> Node list \<Rightarrow> Service list \<Rightarrow> state \<Rightarrow> Service list \<times> state" where
  "nodes_loop E basepath [] svcs \<sigma> = (svcs, \<sigma>)"
| "nodes_loop E basepath (node # nodes) svcs \<sigma> =
     (case newService E (Key node) (Value node) of
        Inl err \<Rightarrow>
          nodes_loop E basepath nodes svcs
            (logf WarnLevel ''invalid service definition. skipping.''
               [(''error'', FErr err), (''basepath'', FStr basepath),
                (''key'', FStr (Key node))] \<sigma>)
      | Inr s \<Rightarrow> nodes_loop E basepath nodes (svcs @ [s]) \<sigma>)"

definition mustGetServices :: "env \<Rightarrow> string \<Rightarrow> state \<Rightarrow> (Service list) outcome" where
  "mustGetServices E basepath \<sigma> =
     (let r = etcd_Get E (n_get \<sigma>) basepath;
          \<sigma>1 = emit (EtcdGet basepath) (\<sigma>\<lparr>n_get := Suc (n_get \<sigma>)\<rparr>)
      in case r of
           Inl err \<Rightarrow>
             Exited (logf FatalLevel ''unable to get service definitions from etcd''
                       [(''error'', FErr err), (''basepath'', FStr basepath)] \<sigma>1)
         | Inr nodes \<Rightarrow>
             (case nodes_loop E basepath nodes [] \<sigma>1 of
                (svcs, \<sigma>2) \<Rightarrow> Returned svcs \<sigma>2))"

section \<open>The reconciliation loop\<close>

text \<open>The two cases of the \<open>select\<close> in \<open>main\<close>.\<close>

datatype trigger = DefChange | Tick

text \<open>
  One iteration of the \<open>for { select { ... } }\<close> loop, for the case the \<open>select\<close>
  took; \<open>svcs\<close> is the loop's variable, returned as the iteration leaves it.
\<close>

definition loop_body :: "env \<Rightarrow> trigger \<Rightarrow> Service list \<Rightarrow> state \<Rightarrow> (Service list) outcome" where
  "loop_body E t svcs \<sigma> =
     (case t of
        DefChange \<Rightarrow>
          (case mustGetServices E (ServiceDefinitionBase (opts E))
                  (logf InfoLevel ''detected change to service definitions'' [] \<sigma>) of
             Exited \<sigma>' \<Rightarrow> Exited \<sigma>'
           | Returned svcs' \<sigma>1 \<Rightarrow>
               (case updateVulcanDFromDocker E (VulcandEtcdBase (opts E)) svcs'
                       (initializeVulcandBackends E (VulcandEtcdBase (opts E)) svcs'
                          (logf DebugLevel ''found service definitions''
                             [(''count'', FNum (int (length svcs')))] \<sigma>1)) of
                  Exited \<sigma>' \<Rightarrow> Exited \<sigma>'
                | Returned u \<sigma>2 \<Rightarrow> Returned svcs' \<sigma>2))
      | Tick \<Rightarrow>
          (case updateVulcanDFromDocker E (VulcandEtcdBase (opts E)) svcs
                  (logf DebugLevel ''tick'' [] \<sigma>) of
             Exited \<sigma>' \<Rightarrow> Exited \<sigma>'
           | Returned u \<sigma>2 \<Rightarrow> Returned svcs \<sigma>2))"

section \<open>Reading the record of events\<close>

text \<open>The events a function added to the record: those after the ones of the state it started in.\<close>

definition added :: "state \<Rightarrow> state \<Rightarrow> event list" where
  "added \<sigma> \<sigma>' = drop (length (trace \<sigma>)) (trace \<sigma>')"

fun is_call :: "event \<Rightarrow> bool" where
  "is_call (Log l m fs) = False"
| "is_call e = True"

text \<open>The calls to etcd and docker among some events, without the log entries.\<close>

definition calls :: "event list \<Rightarrow> event list" where
  "calls es = filter is_call es"

text \<open>The warning of a failed Server upsert, the only entry that depends on its result.\<close>

fun is_put_warning :: "event \<Rightarrow> bool" where
  "is_put_warning (Log l m fs) =
     (l = WarnLevel \<and> m = ''could not add container to server registry'')"
| "is_put_warning e = False"

text \<open>
  The match candidates of a poll pass, in the order the loops visit them: for every
  container, every name of it (cleaned), every service whose pattern matches that name.
\<close>

definition candidates ::
  "Service list \<Rightarrow> APIContainers list \<Rightarrow> (APIContainers \<times> string \<times> Service) list" where
  "candidates svcs containers =
     concat (map (\<lambda>c. concat (map (\<lambda>name.
       map (\<lambda>s. (c, TrimLeft name ''/'', s))
         (filter (\<lambda>s. re s (TrimLeft name ''/'')) svcs)) (Names c))) containers)"

definition registering :: "string \<Rightarrow> event" where
  "registering cleanName =
     Log DebugLevel ''registering container as server'' [(''container_name'', FStr cleanName)]"

text \<open>
  What one candidate adds to the record whatever the Server upsert answers: the
  registration entry, then the warning of an unresolved port or the upsert itself.
\<close>

definition candidate_events ::
  "env \<Rightarrow> string \<Rightarrow> APIContainers \<times> string \<times> Service \<Rightarrow> event list" where
  "candidate_events E vulcanPath cand =
     (case cand of (c, cleanName, s) \<Rightarrow>
        registering cleanName #
        (case findExternalPort c (ContainerPort (serviceDef s)) of
           (p, Some err) \<Rightarrow>
             [Log WarnLevel ''could not find exposed port''
                [(''error'', FErr err), (''service'', FStr (key s)),
                 (''container'', FStr (ID c)), (''container_name'', FStr cleanName),
                 (''container_port'', FPort (ContainerPort (serviceDef s)))]]
         | (p, None) \<Rightarrow>
             [ServerPut (newServer (Host (opts E)) p) vulcanPath (key s) cleanName]))"

text \<open>What the n-th Backend upsert adds to the record: the upsert, and a warning when it fails.\<close>

definition backend_events :: "env \<Rightarrow> string \<Rightarrow> nat \<times> Service \<Rightarrow> event list" where
  "backend_events E basepath ns =
     (case ns of (n, s) \<Rightarrow>
        BackendPut basepath (key s) #
        (case backend_put E n basepath (key s) of
           None \<Rightarrow> []
         | Some err \<Rightarrow>
             [Log WarnLevel ''could not register backend''
                [(''error'', FErr err), (''service'', FStr (key s))]]))"

text \<open>A well-formed definition entry is one \<open>newService\<close> accepts.\<close>

definition well_formed :: "env \<Rightarrow> Node \<Rightarrow> bool" where
  "well_formed E node = (case newService E (Key node) (Value node) of Inl err \<Rightarrow> False | Inr s \<Rightarrow> True)"

definition service_of :: "env \<Rightarrow> Node \<Rightarrow> Service" where
  "service_of E node = projr (newService E (Key node) (Value node))"

definition invalid_warning :: "env \<Rightarrow> string \<Rightarrow> Node \<Rightarrow> event" where
  "invalid_warning E basepath node =
     Log WarnLevel ''invalid service definition. skipping.''
       [(''error'', FErr (projl (newService E (Key node) (Value node)))),
        (''basepath'', FStr basepath), (''key'', FStr (Key node))]"

fun is_registration :: "event \<Rightarrow> bool" where
  "is_registration (Log l m fs) =
     (l = DebugLevel \<and> m = ''registering container as server'')"
| "is_registration e = False"

section \<open>The change signal\<close>

text \<open>
  \<open>main\<close> makes \<open>defChange\<close> with \<open>make(chan bool)\<close> and \<open>mustWatchServiceDefs\<close> makes
  \<open>receiver\<close> with \<open>make(chan *etcd.Response)\<close>: both channels are unbuffered, so a send
  and its receive happen together. The relay goroutine is
  \<open>for { <-receiver; changed <- true }\<close>: it waits at the receive or at the send. The
  loop of \<open>main\<close> waits at its \<open>select\<close> or runs a pass.
\<close>

datatype relay_pc = AtReceive | AtSend

datatype loop_pc = AtSelect | InPass

text \<open>
  The second goroutine of \<open>mustWatchServiceDefs\<close> runs \<open>backoff.RetryNotify\<close> on
  \<open>client.Watch\<close>: a watch is running, or it has returned an error and the retry policy
  is deciding. The process runs, has left through \<open>log.Fatal\<close>, or has ended in a panic.
\<close>

datatype watch_pc = Watching | BackingOff

datatype proc_status = Running | ExitedFatal | Panicked

text \<open>
  \<open>upstream\<close> counts the change events the running watch has still to hand over on
  \<open>receiver\<close>; \<open>reloads\<close> counts the times the \<open>select\<close> took the \<open>defChange\<close> case.
  \<open>mustWatchServiceDefs\<close> makes \<open>receiver\<close> once and gives the same channel to every
  call of \<open>client.Watch\<close>; go-etcd's \<open>Watch\<close> closes the receiver it was given when it
  returns (\<open>defer close(receiver)\<close>), so \<open>receiver_open\<close> is false from the first
  return on.
\<close>

record chans =
  upstream :: nat
  receiver_open :: bool
  watch :: watch_pc
  relay :: relay_pc
  loop_at :: loop_pc
  reloads :: nat
  proc :: proc_status

text \<open>
  The steps of the three goroutines:
  \<^item> \<open>Handover\<close>: the watch sends an event on \<open>receiver\<close> and the relay receives it; on
    the closed receiver the send panics.
  \<^item> \<open>WatchError\<close>: \<open>client.Watch\<close> returns an error and closes \<open>receiver\<close>; closing
    the closed receiver panics.
  \<^item> \<open>Retry\<close>, \<open>GiveUp\<close>: the retry policy calls \<open>client.Watch\<close> again, or lets
    \<open>RetryNotify\<close> return the error, which is fatal.
  \<^item> \<open>RelayClosed\<close>: the relay's \<open><-receiver\<close> returns at once on the closed receiver,
    with no event.
  \<^item> \<open>Signal\<close>: the relay sends on \<open>defChange\<close> and the \<open>select\<close> takes that case.
  \<^item> \<open>TickPass\<close>: the \<open>select\<close> takes the ticker's case.
  \<^item> \<open>PassDone\<close>, \<open>PassFatal\<close>: the pass returns to the \<open>select\<close>, or ends in
    \<open>log.Fatal\<close>.
\<close>

datatype action =
    Handover | WatchError | Retry | GiveUp
  | RelayClosed | Signal | TickPass | PassDone | PassFatal

fun step_running :: "action \<Rightarrow> chans \<Rightarrow> chans option" where
  "step_running Handover c =
     (if watch c = Watching \<and> 0 < upstream c then
        (if receiver_open c then
           (if relay c = AtReceive
            then Some (c\<lparr>upstream := upstream c - 1, relay := AtSend\<rparr>) else None)
         else Some (c\<lparr>proc := Panicked\<rparr>))
      else None)"
| "step_running WatchError c =
     (if watch c = Watching then
        (if receiver_open c
         then Some (c\<lparr>receiver_open := False, watch := BackingOff\<rparr>)
         else Some (c\<lparr>proc := Panicked\<rparr>))
      else None)"
| "step_running Retry c =
     (if watch c = BackingOff then Some (c\<lparr>watch := Watching\<rparr>) else None)"
| "step_running GiveUp c =
     (if watch c = BackingOff then Some (c\<lparr>proc := ExitedFatal\<rparr>) else None)"
| "step_running RelayClosed c =
     (if relay c = AtReceive \<and> \<not> receiver_open c then Some (c\<lparr>relay := AtSend\<rparr>) else None)"
| "step_running Signal c =
     (if relay c = AtSend \<and> loop_at c = AtSelect
      then Some (c\<lparr>relay := AtReceive, loop_at := InPass, reloads := Suc (reloads c)\<rparr>)
      else None)"
| "step_running TickPass c =
     (if loop_at c = AtSelect then Some (c\<lparr>loop_at := InPass\<rparr>) else None)"
| "step_running PassDone c =
     (if loop_at c = InPass then Some (c\<lparr>loop_at := AtSelect\<rparr>) else None)"
| "step_running PassFatal c =
     (if loop_at c = InPass then Some (c\<lparr>proc := ExitedFatal\<rparr>) else None)"

text \<open>
  Once the process has exited or panicked no goroutine moves.
\<close>

definition step :: "action \<Rightarrow> chans \<Rightarrow> chans option" where
  "step a c = (if proc c = Running then step_running a c else None)"

fun exec :: "action list \<Rightarrow> chans \<Rightarrow> chans option" where
  "exec [] c = Some c"
| "exec (a # as) c = (case step a c of None \<Rightarrow> None | Some c' \<Rightarrow> exec as c')"

text \<open>
  The notifications waiting on \<open>defChange\<close>: the relay blocked at its send, or none.
\<close>

definition pending :: "chans \<Rightarrow> nat" where
  "pending c = (if relay c = AtSend then 1 else 0)"

text \<open>
  The watch has not failed: the process runs, \<open>receiver\<close> is open and the first
  \<open>client.Watch\<close> is still running.
\<close>

definition healthy :: "chans \<Rightarrow> bool" where
  "healthy c = (proc c = Running \<and> receiver_open c \<and> watch c = Watching)"

text \<open>
  No event can be handed over, no signal taken and no pass is running.
\<close>

definition settled :: "chans \<Rightarrow> bool" where
  "settled c = (step Handover c = None \<and> step Signal c = None \<and> step PassDone c = None)"

text \<open>
  A schedule that takes a burst of \<open>n\<close> events through, one after the other.
\<close>

fun drain_all :: "nat \<Rightarrow> action list" where
  "drain_all 0 = []"
| "drain_all (Suc n) = [Handover, Signal, PassDone] @ drain_all n"

text \<open>
  A burst of \<open>n\<close> change events that arrives while the loop runs a pass.
\<close>

definition burst :: "nat \<Rightarrow> chans" where
  "burst n =
     \<lparr>upstream = n, receiver_open = True, watch = Watching, relay = AtReceive,
      loop_at = InPass, reloads = 0, proc = Running\<rparr>"

section \<open>An example environment\<close>

text \<open>
  The defaults of \<open>opts\<close>; one definition entry \<open>svc1\<close> for the names that start with
  \<open>app-\<close> on port 8080 and one entry that \<open>newService\<close> refuses; one container named
  \<open>/app-1\<close> that publishes 8080 on 33000.
\<close>

definition example_opts :: Opts where
  "example_opts =
     \<lparr>EtcdHosts = [''http://localhost:4001''], VulcandEtcdBase = ''/vulcand'',
      ServiceDefinitionBase = ''/publication'',
      DockerPath = ''unix:///var/run/docker.sock'', Host = ''localhost''\<rparr>"

definition example_newService :: "string \<Rightarrow> string \<Rightarrow> error + Service" where
  "example_newService k v =
     (if v = ''app-'' then
        Inr \<lparr>key = k, re = (\<lambda>n. take 4 n = ''app-''), serviceDef = \<lparr>ContainerPort = 8080\<rparr>\<rparr>
      else Inl (LibError ''invalid definition''))"

definition example_container :: APIContainers where
  "example_container =
     \<lparr>ID = ''c1'', Names = [''/app-1''],
      Ports = [\<lparr>PrivatePort = 8080, PublicPort = 33000\<rparr>]\<rparr>"

definition example_env :: env where
  "example_env =
     \<lparr>opts = example_opts,
      etcd_Get = (\<lambda>n path. Inr [\<lparr>Key = ''svc1'', Value = ''app-''\<rparr>,
                                   \<lparr>Key = ''svc2'', Value = ''(''\<rparr>]),
      docker_ListContainers = (\<lambda>n. Inr [example_container]),
      newService = example_newService,
      backend_put = (\<lambda>n basepath k. None),
      server_put = (\<lambda>n server vulcanPath k instanceName. None)\<rparr>"

definition example_svc1 :: Service where
  "example_svc1 =
     \<lparr>key = ''svc1'', re = (\<lambda>n. take 4 n = ''app-''), serviceDef = \<lparr>ContainerPort = 8080\<rparr>\<rparr>"

text \<open>The example with other names on its container, and a service for one exact name.\<close>

definition example_env_named :: "string list \<Rightarrow> env" where
  "example_env_named names =
     example_env\<lparr>docker_ListContainers := (\<lambda>n. Inr [example_container\<lparr>Names := names\<rparr>])\<rparr>"

definition example_svc_exact :: "string \<Rightarrow> Service" where
  "example_svc_exact name = example_svc1\<lparr>re := (\<lambda>n. n = name)\<rparr>"

section \<open>Port resolution: results\<close>

lemma findExternalPort_loop_find:
  "findExternalPort_loop ps p =
     (case find (\<lambda>a. p = PrivatePort a) ps of
        None \<Rightarrow> (- 1, Some PortNotExposedError)
      | Some a \<Rightarrow>
          if 1 \<le> sint (PublicPort a) \<and> sint (PublicPort a) \<le> 65535
          then (PublicPort a, None) else (- 1, Some PortNotExposedError))"
  by (induction ps) auto

text \<open>
  C1. Port resolution returns the error \<open>PortNotExposedError\<close> exactly when no mapping
  has the requested private port, or the mapping that matches (the first one in list
  order) has a public port outside [1, 65535]; when that mapping's public port lies in
  [1, 65535] the result is that public port with a nil error.
\<close>

theorem findExternalPort_NotExposed_iff:
  "(snd (findExternalPort c p) = Some PortNotExposedError \<longleftrightarrow>
      (\<forall>a \<in> set (Ports c). PrivatePort a \<noteq> p) \<or>
      (\<exists>a. find (\<lambda>a. p = PrivatePort a) (Ports c) = Some a \<and>
           \<not> (1 \<le> sint (PublicPort a) \<and> sint (PublicPort a) \<le> 65535)))
   \<and> (snd (findExternalPort c p) = None \<or> snd (findExternalPort c p) = Some PortNotExposedError)
   \<and> (\<forall>a. find (\<lambda>a. p = PrivatePort a) (Ports c) = Some a \<and>
           1 \<le> sint (PublicPort a) \<and> sint (PublicPort a) \<le> 65535
         \<longrightarrow> findExternalPort c p = (PublicPort a, None))"
proof -
  let ?f = "find (\<lambda>a. p = PrivatePort a) (Ports c)"
  show ?thesis
  proof (cases ?f)
    case None
    then have "\<forall>a \<in> set (Ports c). PrivatePort a \<noteq> p"
      by (auto simp: find_None_iff)
    with None show ?thesis
      by (simp add: findExternalPort_def findExternalPort_loop_find)
  next
    case (Some a)
    then have "a \<in> set (Ports c)" "PrivatePort a = p"
      by (auto simp: find_Some_iff)
    with Some show ?thesis
      by (auto simp: findExternalPort_def findExternalPort_loop_find)
  qed
qed

theorem findExternalPort_NotExposed_iff_witness:
  "findExternalPort \<lparr>ID = ''c1'', Names = [''/app-1''],
      Ports = [\<lparr>PrivatePort = 8080, PublicPort = 33000\<rparr>]\<rparr> 8080 = (33000, None)
   \<and> snd (findExternalPort \<lparr>ID = ''c1'', Names = [''/app-1''],
      Ports = [\<lparr>PrivatePort = 8080, PublicPort = 0\<rparr>]\<rparr> 8080) = Some PortNotExposedError
   \<and> snd (findExternalPort \<lparr>ID = ''c1'', Names = [''/app-1''],
      Ports = [\<lparr>PrivatePort = 8080, PublicPort = 33000\<rparr>]\<rparr> 9090) = Some PortNotExposedError"
  using findExternalPort_NotExposed_iff
    [of "\<lparr>ID = ''c1'', Names = [''/app-1''],
          Ports = [\<lparr>PrivatePort = 8080, PublicPort = 33000\<rparr>]\<rparr>" 8080]
    findExternalPort_NotExposed_iff
    [of "\<lparr>ID = ''c1'', Names = [''/app-1''],
          Ports = [\<lparr>PrivatePort = 8080, PublicPort = 0\<rparr>]\<rparr>" 8080]
    findExternalPort_NotExposed_iff
    [of "\<lparr>ID = ''c1'', Names = [''/app-1''],
          Ports = [\<lparr>PrivatePort = 8080, PublicPort = 33000\<rparr>]\<rparr>" 9090]
  by simp

text \<open>
  C9. The scan decides on the first mapping whose private port equals the requested
  port: when that mapping's public port is outside [1, 65535] the result is
  \<open>PortNotExposedError\<close>, whatever mappings follow it, also one with the same private
  port and a public port inside [1, 65535].
\<close>

theorem findExternalPort_first_match_decides:
  assumes "Ports c = before @ a # rest"
    and "\<forall>b \<in> set before. PrivatePort b \<noteq> p"
    and "PrivatePort a = p"
    and "sint (PublicPort a) < 1 \<or> sint (PublicPort a) > 65535"
  shows "findExternalPort c p = (- 1, Some PortNotExposedError)"
proof -
  have "findExternalPort_loop (before @ a # rest) p = (- 1, Some PortNotExposedError)"
    using assms(2-4) by (induction before) auto
  with assms(1) show ?thesis by (simp add: findExternalPort_def)
qed

theorem findExternalPort_first_match_decides_witness:
  "findExternalPort \<lparr>ID = ''c1'', Names = [''/app-1''],
      Ports = [\<lparr>PrivatePort = 53, PublicPort = 5353\<rparr>,
               \<lparr>PrivatePort = 8080, PublicPort = 0\<rparr>,
               \<lparr>PrivatePort = 8080, PublicPort = 33000\<rparr>]\<rparr> 8080
   = (- 1, Some PortNotExposedError)"
  using findExternalPort_first_match_decides
    [of "\<lparr>ID = ''c1'', Names = [''/app-1''],
          Ports = [\<lparr>PrivatePort = 53, PublicPort = 5353\<rparr>,
                   \<lparr>PrivatePort = 8080, PublicPort = 0\<rparr>,
                   \<lparr>PrivatePort = 8080, PublicPort = 33000\<rparr>]\<rparr>"
        "[\<lparr>PrivatePort = 53, PublicPort = 5353\<rparr>]"
        "\<lparr>PrivatePort = 8080, PublicPort = 0\<rparr>"
        "[\<lparr>PrivatePort = 8080, PublicPort = 33000\<rparr>]" 8080]
  by simp

section \<open>Container names: results\<close>

text \<open>
  C8. Name-stripping is idempotent: stripping the leading separators of a container name
  twice gives the same name as stripping them once.
\<close>

theorem TrimLeft_idempotent:
  "TrimLeft (TrimLeft name ''/'') ''/'' = TrimLeft name ''/''"
  by (simp add: TrimLeft_def dropWhile_idem)

section \<open>The record of a poll pass\<close>

lemma emit_simps [simp]:
  "trace (emit e \<sigma>) = trace \<sigma> @ [e]"
  "n_get (emit e \<sigma>) = n_get \<sigma>"
  "n_list (emit e \<sigma>) = n_list \<sigma>"
  "n_backend_put (emit e \<sigma>) = n_backend_put \<sigma>"
  "n_server_put (emit e \<sigma>) = n_server_put \<sigma>"
  by (simp_all add: emit_def)

lemma logf_simps [simp]:
  "trace (logf l m fs \<sigma>) = trace \<sigma> @ [Log l m fs]"
  "n_get (logf l m fs \<sigma>) = n_get \<sigma>"
  "n_list (logf l m fs \<sigma>) = n_list \<sigma>"
  "n_backend_put (logf l m fs \<sigma>) = n_backend_put \<sigma>"
  "n_server_put (logf l m fs \<sigma>) = n_server_put \<sigma>"
  by (simp_all add: logf_def)

lemma register_counters [simp]:
  "n_get (registerContainerWithVulcan E s c vp n \<sigma>) = n_get \<sigma>"
  "n_list (registerContainerWithVulcan E s c vp n \<sigma>) = n_list \<sigma>"
  "n_backend_put (registerContainerWithVulcan E s c vp n \<sigma>) = n_backend_put \<sigma>"
  by (simp_all add: registerContainerWithVulcan_def Let_def split: prod.splits option.splits)

lemma register_trace:
  "\<exists>es. trace (registerContainerWithVulcan E s c vp n (logf DebugLevel ''registering container as server''
               [(''container_name'', FStr n)] \<sigma>)) = trace \<sigma> @ es
     \<and> filter (\<lambda>e. \<not> is_put_warning e) es = candidate_events E vp (c, n, s)"
  by (simp add: registerContainerWithVulcan_def candidate_events_def registering_def Let_def
      split: prod.splits option.splits)

lemma svcs_loop_counters [simp]:
  "n_get (svcs_loop E c vp n svcs \<sigma>) = n_get \<sigma>"
  "n_list (svcs_loop E c vp n svcs \<sigma>) = n_list \<sigma>"
  "n_backend_put (svcs_loop E c vp n svcs \<sigma>) = n_backend_put \<sigma>"
  by (induction svcs arbitrary: \<sigma>) simp_all

lemma svcs_loop_trace:
  "\<exists>es. trace (svcs_loop E c vp n svcs \<sigma>) = trace \<sigma> @ es
     \<and> filter (\<lambda>e. \<not> is_put_warning e) es =
         concat (map (\<lambda>s. candidate_events E vp (c, n, s)) (filter (\<lambda>s. re s n) svcs))"
proof (induction svcs arbitrary: \<sigma>)
  case Nil
  show ?case by simp
next
  case (Cons s svcs)
  show ?case
  proof (cases "re s n")
    case False
    with Cons.IH [of \<sigma>] show ?thesis by simp
  next
    case True
    let ?\<sigma>1 = "registerContainerWithVulcan E s c vp n
                  (logf DebugLevel ''registering container as server''
                     [(''container_name'', FStr n)] \<sigma>)"
    obtain es1 where es1: "trace ?\<sigma>1 = trace \<sigma> @ es1"
      "filter (\<lambda>e. \<not> is_put_warning e) es1 = candidate_events E vp (c, n, s)"
      using register_trace by blast
    obtain es2 where es2: "trace (svcs_loop E c vp n svcs ?\<sigma>1) = trace ?\<sigma>1 @ es2"
      "filter (\<lambda>e. \<not> is_put_warning e) es2 =
         concat (map (\<lambda>s. candidate_events E vp (c, n, s)) (filter (\<lambda>s. re s n) svcs))"
      using Cons.IH [of ?\<sigma>1] by blast
    from True es1 es2 show ?thesis by simp
  qed
qed

lemma names_loop_counters [simp]:
  "n_get (names_loop E svcs c vp names \<sigma>) = n_get \<sigma>"
  "n_list (names_loop E svcs c vp names \<sigma>) = n_list \<sigma>"
  "n_backend_put (names_loop E svcs c vp names \<sigma>) = n_backend_put \<sigma>"
  by (induction names arbitrary: \<sigma>) simp_all

lemma names_loop_trace:
  "\<exists>es. trace (names_loop E svcs c vp names \<sigma>) = trace \<sigma> @ es
     \<and> filter (\<lambda>e. \<not> is_put_warning e) es =
         concat (map (candidate_events E vp)
           (concat (map (\<lambda>name. map (\<lambda>s. (c, TrimLeft name ''/'', s))
              (filter (\<lambda>s. re s (TrimLeft name ''/'')) svcs)) names)))"
proof (induction names arbitrary: \<sigma>)
  case Nil
  show ?case by simp
next
  case (Cons name names)
  let ?\<sigma>1 = "svcs_loop E c vp (TrimLeft name ''/'') svcs \<sigma>"
  obtain es1 where es1: "trace ?\<sigma>1 = trace \<sigma> @ es1"
    "filter (\<lambda>e. \<not> is_put_warning e) es1 =
       concat (map (\<lambda>s. candidate_events E vp (c, TrimLeft name ''/'', s))
         (filter (\<lambda>s. re s (TrimLeft name ''/'')) svcs))"
    using svcs_loop_trace by blast
  obtain es2 where es2: "trace (names_loop E svcs c vp names ?\<sigma>1) = trace ?\<sigma>1 @ es2"
    "filter (\<lambda>e. \<not> is_put_warning e) es2 =
       concat (map (candidate_events E vp)
         (concat (map (\<lambda>name. map (\<lambda>s. (c, TrimLeft name ''/'', s))
            (filter (\<lambda>s. re s (TrimLeft name ''/'')) svcs)) names)))"
    using Cons.IH [of ?\<sigma>1] by blast
  from es1 es2 show ?case by (simp add: comp_def)
qed

lemma containers_loop_counters [simp]:
  "n_get (containers_loop E svcs vp cs \<sigma>) = n_get \<sigma>"
  "n_list (containers_loop E svcs vp cs \<sigma>) = n_list \<sigma>"
  "n_backend_put (containers_loop E svcs vp cs \<sigma>) = n_backend_put \<sigma>"
  by (induction cs arbitrary: \<sigma>) simp_all

lemma containers_loop_trace:
  "\<exists>es. trace (containers_loop E svcs vp cs \<sigma>) = trace \<sigma> @ es
     \<and> filter (\<lambda>e. \<not> is_put_warning e) es =
         concat (map (candidate_events E vp) (candidates svcs cs))"
proof (induction cs arbitrary: \<sigma>)
  case Nil
  show ?case by (simp add: candidates_def)
next
  case (Cons c cs)
  let ?\<sigma>1 = "names_loop E svcs c vp (Names c) \<sigma>"
  obtain es1 where es1: "trace ?\<sigma>1 = trace \<sigma> @ es1"
    "filter (\<lambda>e. \<not> is_put_warning e) es1 =
       concat (map (candidate_events E vp)
         (concat (map (\<lambda>name. map (\<lambda>s. (c, TrimLeft name ''/'', s))
            (filter (\<lambda>s. re s (TrimLeft name ''/'')) svcs)) (Names c))))"
    using names_loop_trace by blast
  obtain es2 where es2: "trace (containers_loop E svcs vp cs ?\<sigma>1) = trace ?\<sigma>1 @ es2"
    "filter (\<lambda>e. \<not> is_put_warning e) es2 =
       concat (map (candidate_events E vp) (candidates svcs cs))"
    using Cons.IH [of ?\<sigma>1] by blast
  from es1 es2 show ?case by (simp add: candidates_def)
qed


lemma added_append: "trace \<sigma>' = trace \<sigma> @ es \<Longrightarrow> added \<sigma> \<sigma>' = es"
  by (simp add: added_def)

lemma calls_drop_put_warnings: "calls (filter (\<lambda>e. \<not> is_put_warning e) es) = calls es"
proof -
  have "is_call e \<Longrightarrow> \<not> is_put_warning e" for e by (cases e) simp_all
  then show ?thesis unfolding calls_def filter_filter
    by (intro filter_cong) auto
qed

lemma registrations_drop_put_warnings:
  "filter is_registration (filter (\<lambda>e. \<not> is_put_warning e) es) = filter is_registration es"
proof -
  have "is_registration e \<Longrightarrow> \<not> is_put_warning e" for e by (cases e) auto
  then show ?thesis unfolding filter_filter
    by (intro filter_cong) auto
qed

lemma update_exit_iff:
  "is_exit (updateVulcanDFromDocker E vp svcs \<sigma>) \<longleftrightarrow> isl (docker_ListContainers E (n_list \<sigma>))"
  by (simp add: updateVulcanDFromDocker_def Let_def split: sum.splits)

lemma update_final_counters:
  "n_get (final (updateVulcanDFromDocker E vp svcs \<sigma>)) = n_get \<sigma>"
  "n_list (final (updateVulcanDFromDocker E vp svcs \<sigma>)) = Suc (n_list \<sigma>)"
  "n_backend_put (final (updateVulcanDFromDocker E vp svcs \<sigma>)) = n_backend_put \<sigma>"
  by (simp_all add: updateVulcanDFromDocker_def Let_def split: sum.splits)

lemma update_Returned:
  assumes "docker_ListContainers E (n_list \<sigma>) = Inr cs"
  shows "\<exists>\<sigma>' es. updateVulcanDFromDocker E vp svcs \<sigma> = Returned () \<sigma>'
      \<and> trace \<sigma>' = trace \<sigma> @ DockerListContainers # es
      \<and> filter (\<lambda>e. \<not> is_put_warning e) es =
          concat (map (candidate_events E vp) (candidates svcs cs))"
proof -
  let ?\<sigma>1 = "emit DockerListContainers (\<sigma>\<lparr>n_list := Suc (n_list \<sigma>)\<rparr>)"
  obtain es where "trace (containers_loop E svcs vp cs ?\<sigma>1) = trace ?\<sigma>1 @ es"
    "filter (\<lambda>e. \<not> is_put_warning e) es =
       concat (map (candidate_events E vp) (candidates svcs cs))"
    using containers_loop_trace by blast
  with assms show ?thesis
    by (simp add: updateVulcanDFromDocker_def Let_def)
qed

lemma update_Exited:
  assumes "docker_ListContainers E (n_list \<sigma>) = Inl err"
  shows "\<exists>\<sigma>'. updateVulcanDFromDocker E vp svcs \<sigma> = Exited \<sigma>'
      \<and> trace \<sigma>' = trace \<sigma> @ [DockerListContainers,
           Log FatalLevel ''unable to list running docker containers'' [(''error'', FErr err)]]"
  using assms by (simp add: updateVulcanDFromDocker_def Let_def)

lemma initialize_counters [simp]:
  "n_get (initializeVulcandBackends E bp svcs \<sigma>) = n_get \<sigma>"
  "n_list (initializeVulcandBackends E bp svcs \<sigma>) = n_list \<sigma>"
  "n_server_put (initializeVulcandBackends E bp svcs \<sigma>) = n_server_put \<sigma>"
  by (induction svcs arbitrary: \<sigma>) (simp_all add: Let_def split: option.splits)

lemma initialize_trace:
  "trace (initializeVulcandBackends E bp svcs \<sigma>) =
     trace \<sigma> @ concat (map (backend_events E bp) (enumerate (n_backend_put \<sigma>) svcs))"
  by (induction svcs arbitrary: \<sigma>)
     (simp_all add: Let_def backend_events_def split: option.splits)

lemma calls_backend_events:
  "calls (concat (map (backend_events E bp) (enumerate n svcs))) =
     map (\<lambda>s. BackendPut bp (key s)) svcs"
  by (induction svcs arbitrary: n)
     (simp_all add: calls_def backend_events_def split: option.splits)

lemma nodes_loop_eq:
  "nodes_loop E bp nodes svcs \<sigma> =
     (svcs @ map (service_of E) (filter (well_formed E) nodes),
      \<sigma>\<lparr>trace := trace \<sigma> @ map (invalid_warning E bp) (filter (\<lambda>n. \<not> well_formed E n) nodes)\<rparr>)"
  by (induction nodes arbitrary: svcs \<sigma>)
     (simp_all add: well_formed_def service_of_def invalid_warning_def logf_def emit_def
        split: sum.splits)

lemma mustGetServices_exit_iff:
  "is_exit (mustGetServices E bp \<sigma>) \<longleftrightarrow> isl (etcd_Get E (n_get \<sigma>) bp)"
  by (simp add: mustGetServices_def Let_def split: sum.splits prod.splits)

lemma mustGetServices_Returned:
  assumes "etcd_Get E (n_get \<sigma>) bp = Inr nodes"
  shows "mustGetServices E bp \<sigma> =
     Returned (map (service_of E) (filter (well_formed E) nodes))
       (\<sigma>\<lparr>n_get := Suc (n_get \<sigma>),
          trace := trace \<sigma> @ EtcdGet bp #
            map (invalid_warning E bp) (filter (\<lambda>n. \<not> well_formed E n) nodes)\<rparr>)"
  using assms by (simp add: mustGetServices_def Let_def nodes_loop_eq emit_def)

lemma mustGetServices_final_counters:
  "n_get (final (mustGetServices E bp \<sigma>)) = Suc (n_get \<sigma>)"
  "n_list (final (mustGetServices E bp \<sigma>)) = n_list \<sigma>"
  by (simp_all add: mustGetServices_def Let_def nodes_loop_eq split: sum.splits)

lemmas example_defs = example_env_def example_opts_def example_container_def example_svc1_def
  example_newService_def init_state_def

lemmas run_defs = updateVulcanDFromDocker_def registerContainerWithVulcan_def findExternalPort_def
  TrimLeft_def emit_def logf_def added_def newServer_def Let_def candidates_def candidate_events_def

section \<open>Loading: results\<close>

text \<open>
  C3. When the definitions are read, loading returns exactly one Service per well-formed
  entry, in the order of the entries, and writes one warning per malformed entry; the
  malformed entries take no sibling with them and the load does not exit. Reading the same
  entries in another order returns the same Services (as a multiset).
\<close>

theorem mustGetServices_one_service_per_well_formed_entry:
  assumes "etcd_Get E (n_get \<sigma>) basepath = Inr nodes"
  shows "(\<exists>\<sigma>'. mustGetServices E basepath \<sigma> =
              Returned (map (service_of E) (filter (well_formed E) nodes)) \<sigma>'
            \<and> added \<sigma> \<sigma>' = EtcdGet basepath #
                map (invalid_warning E basepath) (filter (\<lambda>n. \<not> well_formed E n) nodes))
       \<and> (\<forall>(\<sigma>2::state) nodes2. etcd_Get E (n_get \<sigma>2) basepath = Inr nodes2 \<and> mset nodes2 = mset nodes \<longrightarrow>
            (\<exists>svcs2 \<sigma>2'. mustGetServices E basepath \<sigma>2 = Returned svcs2 \<sigma>2'
               \<and> mset svcs2 = mset (map (service_of E) (filter (well_formed E) nodes))))"
proof (intro conjI allI impI)
  show "\<exists>\<sigma>'. mustGetServices E basepath \<sigma> =
              Returned (map (service_of E) (filter (well_formed E) nodes)) \<sigma>'
            \<and> added \<sigma> \<sigma>' = EtcdGet basepath #
                map (invalid_warning E basepath) (filter (\<lambda>n. \<not> well_formed E n) nodes)"
    using mustGetServices_Returned [OF assms] by (simp add: added_def)
next
  fix \<sigma>2 :: state and nodes2
  assume h: "etcd_Get E (n_get \<sigma>2) basepath = Inr nodes2 \<and> mset nodes2 = mset nodes"
  then have "mset (map (service_of E) (filter (well_formed E) nodes2)) =
             mset (map (service_of E) (filter (well_formed E) nodes))"
    by (metis mset_filter mset_map)
  with h mustGetServices_Returned [of E \<sigma>2 basepath nodes2]
  show "\<exists>svcs2 \<sigma>2'. mustGetServices E basepath \<sigma>2 = Returned svcs2 \<sigma>2'
               \<and> mset svcs2 = mset (map (service_of E) (filter (well_formed E) nodes))"
    by simp
qed

theorem mustGetServices_one_service_per_well_formed_entry_witness:
  "(\<exists>\<sigma>'. mustGetServices
          (example_env\<lparr>etcd_Get := (\<lambda>n path.
             if n = 0 then Inr [\<lparr>Key = ''svc1'', Value = ''app-''\<rparr>, \<lparr>Key = ''svc2'', Value = ''(''\<rparr>]
             else Inr [\<lparr>Key = ''svc2'', Value = ''(''\<rparr>, \<lparr>Key = ''svc1'', Value = ''app-''\<rparr>])\<rparr>)
          ''/publication'' init_state = Returned [example_svc1] \<sigma>'
         \<and> added init_state \<sigma>' =
             [EtcdGet ''/publication'',
              Log WarnLevel ''invalid service definition. skipping.''
                [(''error'', FErr (LibError ''invalid definition'')),
                 (''basepath'', FStr ''/publication''), (''key'', FStr ''svc2'')]])
   \<and> (\<exists>svcs2 \<sigma>2'. mustGetServices
          (example_env\<lparr>etcd_Get := (\<lambda>n path.
             if n = 0 then Inr [\<lparr>Key = ''svc1'', Value = ''app-''\<rparr>, \<lparr>Key = ''svc2'', Value = ''(''\<rparr>]
             else Inr [\<lparr>Key = ''svc2'', Value = ''(''\<rparr>, \<lparr>Key = ''svc1'', Value = ''app-''\<rparr>])\<rparr>)
          ''/publication'' (init_state\<lparr>n_get := 1\<rparr>) = Returned svcs2 \<sigma>2'
         \<and> mset svcs2 = mset [example_svc1])"
proof -
  let ?a = "\<lparr>Key = ''svc1'', Value = ''app-''\<rparr>" and ?b = "\<lparr>Key = ''svc2'', Value = ''(''\<rparr>"
  let ?E = "example_env\<lparr>etcd_Get := (\<lambda>n path. if n = 0 then Inr [?a, ?b] else Inr [?b, ?a])\<rparr>"
  have h: "etcd_Get ?E (n_get init_state) ''/publication'' = Inr [?a, ?b]"
    by (simp add: init_state_def)
  have h2: "etcd_Get ?E (n_get (init_state\<lparr>n_get := 1\<rparr>)) ''/publication'' = Inr [?b, ?a]
            \<and> mset [?b, ?a] = mset [?a, ?b]"
    by simp
  have wf: "filter (well_formed ?E) [?a, ?b] = [?a]"
    "filter (\<lambda>n. \<not> well_formed ?E n) [?a, ?b] = [?b]"
    by (simp_all add: well_formed_def example_env_def example_newService_def)
  have sv: "service_of ?E ?a = example_svc1"
    by (simp add: service_of_def example_env_def example_newService_def example_svc1_def)
  have iw: "invalid_warning ?E ''/publication'' ?b =
      Log WarnLevel ''invalid service definition. skipping.''
        [(''error'', FErr (LibError ''invalid definition'')),
         (''basepath'', FStr ''/publication''), (''key'', FStr ''svc2'')]"
    by (simp add: invalid_warning_def example_env_def example_newService_def)
  note inst = mustGetServices_one_service_per_well_formed_entry [OF h, unfolded wf list.map sv iw]
  from inst have 1: "\<exists>\<sigma>'. mustGetServices ?E ''/publication'' init_state = Returned [example_svc1] \<sigma>'
         \<and> added init_state \<sigma>' =
             [EtcdGet ''/publication'',
              Log WarnLevel ''invalid service definition. skipping.''
                [(''error'', FErr (LibError ''invalid definition'')),
                 (''basepath'', FStr ''/publication''), (''key'', FStr ''svc2'')]]"
    by (rule conjunct1)
  from inst h2 have 2: "\<exists>svcs2 \<sigma>2'. mustGetServices ?E ''/publication'' (init_state\<lparr>n_get := 1\<rparr>) =
         Returned svcs2 \<sigma>2' \<and> mset svcs2 = mset [example_svc1]"
    by blast
  from 1 2 show ?thesis by (rule conjI)
qed

section \<open>Publication: results\<close>

lemma register_added:
  assumes "findExternalPort c (ContainerPort (serviceDef s)) = (p, None)"
  shows "added \<sigma> (registerContainerWithVulcan E s c vp n \<sigma>) =
      ServerPut (newServer (Host (opts E)) p) vp (key s) n #
      (case server_put E (n_server_put \<sigma>) (newServer (Host (opts E)) p) vp (key s) n of
         None \<Rightarrow> []
       | Some err \<Rightarrow>
           [Log WarnLevel ''could not add container to server registry''
              [(''error'', FErr err), (''service'', FStr (key s)),
               (''container'', FStr (ID c)), (''container_name'', FStr n)]])"
  using assms
  by (simp add: registerContainerWithVulcan_def added_def Let_def split: option.splits)

lemma update_added:
  assumes "docker_ListContainers E (n_list \<sigma>) = Inr cs"
  shows "filter (\<lambda>e. \<not> is_put_warning e) (added \<sigma> (final (updateVulcanDFromDocker E vp svcs \<sigma>))) =
           DockerListContainers # concat (map (candidate_events E vp) (candidates svcs cs))"
proof -
  obtain \<sigma>' es where "updateVulcanDFromDocker E vp svcs \<sigma> = Returned () \<sigma>'"
    "trace \<sigma>' = trace \<sigma> @ DockerListContainers # es"
    "filter (\<lambda>e. \<not> is_put_warning e) es = concat (map (candidate_events E vp) (candidates svcs cs))"
    using update_Returned [OF assms] by blast
  then show ?thesis by (simp add: added_def)
qed

lemma candidate_events_server_put [simp]:
  "candidate_events (E\<lparr>server_put := sp\<rparr>) vp = candidate_events E vp"
  by (rule ext) (simp add: candidate_events_def split: prod.splits option.splits)

text \<open>
  C7. The Backend loop attempts one upsert for every service, in order, and only adds a
  warning after an upsert that fails. A Server upsert that fails adds only a warning;
  apart from these warnings, what a poll pass records (the registrations, the unresolved
  ports and the Server upserts of every candidate) is the same whatever the Server
  upserts answer.
\<close>

theorem upsert_failures_do_not_block:
  "added \<sigma> (initializeVulcandBackends E basepath svcs \<sigma>) =
       concat (map (backend_events E basepath) (enumerate (n_backend_put \<sigma>) svcs))
   \<and> calls (added \<sigma> (initializeVulcandBackends E basepath svcs \<sigma>)) =
       map (\<lambda>s. BackendPut basepath (key s)) svcs
   \<and> (\<forall>p. findExternalPort c (ContainerPort (serviceDef s)) = (p, None) \<longrightarrow>
         added \<sigma> (registerContainerWithVulcan E s c vulcanPath instanceName \<sigma>) =
           ServerPut (newServer (Host (opts E)) p) vulcanPath (key s) instanceName #
           (case server_put E (n_server_put \<sigma>) (newServer (Host (opts E)) p) vulcanPath (key s)
                   instanceName of
              None \<Rightarrow> []
            | Some err \<Rightarrow>
                [Log WarnLevel ''could not add container to server registry''
                   [(''error'', FErr err), (''service'', FStr (key s)),
                    (''container'', FStr (ID c)), (''container_name'', FStr instanceName)]]))
   \<and> (\<forall>cs. docker_ListContainers E (n_list \<sigma>) = Inr cs \<longrightarrow>
         (\<forall>sp. filter (\<lambda>e. \<not> is_put_warning e)
                 (added \<sigma> (final (updateVulcanDFromDocker (E\<lparr>server_put := sp\<rparr>) vulcanPath svcs \<sigma>))) =
               DockerListContainers #
               concat (map (candidate_events E vulcanPath) (candidates svcs cs))))"
proof (intro conjI allI impI)
  show "added \<sigma> (initializeVulcandBackends E basepath svcs \<sigma>) =
       concat (map (backend_events E basepath) (enumerate (n_backend_put \<sigma>) svcs))"
    by (simp add: added_def initialize_trace)
  then show "calls (added \<sigma> (initializeVulcandBackends E basepath svcs \<sigma>)) =
       map (\<lambda>s. BackendPut basepath (key s)) svcs"
    by (simp add: calls_backend_events)
next
  fix p
  assume "findExternalPort c (ContainerPort (serviceDef s)) = (p, None)"
  then show "added \<sigma> (registerContainerWithVulcan E s c vulcanPath instanceName \<sigma>) =
           ServerPut (newServer (Host (opts E)) p) vulcanPath (key s) instanceName #
           (case server_put E (n_server_put \<sigma>) (newServer (Host (opts E)) p) vulcanPath (key s)
                   instanceName of
              None \<Rightarrow> []
            | Some err \<Rightarrow>
                [Log WarnLevel ''could not add container to server registry''
                   [(''error'', FErr err), (''service'', FStr (key s)),
                    (''container'', FStr (ID c)), (''container_name'', FStr instanceName)]])"
    by (rule register_added)
next
  fix cs sp
  assume "docker_ListContainers E (n_list \<sigma>) = Inr cs"
  then have "docker_ListContainers (E\<lparr>server_put := sp\<rparr>) (n_list \<sigma>) = Inr cs" by simp
  from update_added [OF this]
  show "filter (\<lambda>e. \<not> is_put_warning e)
          (added \<sigma> (final (updateVulcanDFromDocker (E\<lparr>server_put := sp\<rparr>) vulcanPath svcs \<sigma>))) =
        DockerListContainers # concat (map (candidate_events E vulcanPath) (candidates svcs cs))"
    by simp
qed

theorem upsert_failures_do_not_block_witness:
  "calls (added init_state (initializeVulcandBackends
      (example_env\<lparr>backend_put := (\<lambda>n basepath k. if n = 0 then Some (LibError ''timeout'') else None)\<rparr>)
      ''/vulcand'' [example_svc1, example_svc1\<lparr>key := ''svc2''\<rparr>] init_state)) =
     [BackendPut ''/vulcand'' ''svc1'', BackendPut ''/vulcand'' ''svc2'']
   \<and> filter (\<lambda>e. \<not> is_put_warning e)
       (added init_state (final (updateVulcanDFromDocker
          (example_env\<lparr>backend_put := (\<lambda>n basepath k. if n = 0 then Some (LibError ''timeout'') else None),
                       server_put := (\<lambda>n server vulcanPath k instanceName. Some (LibError ''timeout''))\<rparr>)
          ''/vulcand'' [example_svc1, example_svc1\<lparr>key := ''svc2''\<rparr>] init_state))) =
     [DockerListContainers,
      registering ''app-1'',
      ServerPut \<lparr>host = ''localhost'', port = 33000\<rparr> ''/vulcand'' ''svc1'' ''app-1'',
      registering ''app-1'',
      ServerPut \<lparr>host = ''localhost'', port = 33000\<rparr> ''/vulcand'' ''svc2'' ''app-1'']"
proof -
  let ?E = "example_env\<lparr>backend_put :=
              (\<lambda>n basepath k. if n = 0 then Some (LibError ''timeout'') else None)\<rparr>"
  let ?svcs = "[example_svc1, example_svc1\<lparr>key := ''svc2''\<rparr>]"
  note inst = upsert_failures_do_not_block
    [where \<sigma> = init_state and E = ?E and basepath = "''/vulcand''" and vulcanPath = "''/vulcand''"
       and svcs = ?svcs and c = example_container and s = example_svc1
       and instanceName = "''app-1''"]
  have h: "docker_ListContainers ?E (n_list init_state) = Inr [example_container]"
    by (simp add: example_env_def)
  from inst have "calls (added init_state (initializeVulcandBackends ?E ''/vulcand'' ?svcs init_state)) =
      map (\<lambda>s. BackendPut ''/vulcand'' (key s)) ?svcs"
    by (elim conjE)
  then have a: "calls (added init_state (initializeVulcandBackends ?E ''/vulcand'' ?svcs init_state)) =
      [BackendPut ''/vulcand'' ''svc1'', BackendPut ''/vulcand'' ''svc2'']"
    by (simp add: example_svc1_def)
  from inst h have "filter (\<lambda>e. \<not> is_put_warning e)
       (added init_state (final (updateVulcanDFromDocker
          (?E\<lparr>server_put := (\<lambda>n server vulcanPath k instanceName. Some (LibError ''timeout''))\<rparr>)
          ''/vulcand'' ?svcs init_state))) =
      DockerListContainers #
      concat (map (candidate_events ?E ''/vulcand'') (candidates ?svcs [example_container]))"
    by blast
  also have "candidates ?svcs [example_container] =
      [(example_container, ''app-1'', example_svc1),
       (example_container, ''app-1'', example_svc1\<lparr>key := ''svc2''\<rparr>)]"
    by (simp add: candidates_def example_container_def example_svc1_def TrimLeft_def)
  also have "concat (map (candidate_events ?E ''/vulcand'')
      [(example_container, ''app-1'', example_svc1),
       (example_container, ''app-1'', example_svc1\<lparr>key := ''svc2''\<rparr>)]) =
     [registering ''app-1'',
      ServerPut \<lparr>host = ''localhost'', port = 33000\<rparr> ''/vulcand'' ''svc1'' ''app-1'',
      registering ''app-1'',
      ServerPut \<lparr>host = ''localhost'', port = 33000\<rparr> ''/vulcand'' ''svc2'' ''app-1'']"
    by (simp add: candidate_events_def example_defs findExternalPort_def newServer_def)
  finally have b: "filter (\<lambda>e. \<not> is_put_warning e)
       (added init_state (final (updateVulcanDFromDocker
          (?E\<lparr>server_put := (\<lambda>n server vulcanPath k instanceName. Some (LibError ''timeout''))\<rparr>)
          ''/vulcand'' ?svcs init_state))) =
     [DockerListContainers,
      registering ''app-1'',
      ServerPut \<lparr>host = ''localhost'', port = 33000\<rparr> ''/vulcand'' ''svc1'' ''app-1'',
      registering ''app-1'',
      ServerPut \<lparr>host = ''localhost'', port = 33000\<rparr> ''/vulcand'' ''svc2'' ''app-1'']" .
  from a b show ?thesis by (rule conjI)
qed

lemma registrations_candidate_events:
  "filter is_registration (concat (map (candidate_events E vp) cands)) =
     map (\<lambda>cand. registering (fst (snd cand))) cands"
  by (induction cands)
     (auto simp: candidate_events_def registering_def split: prod.splits option.splits)

lemma update_registrations:
  assumes "docker_ListContainers E (n_list \<sigma>) = Inr cs"
  shows "filter is_registration (added \<sigma> (final (updateVulcanDFromDocker E vp svcs \<sigma>))) =
           map (\<lambda>cand. registering (fst (snd cand))) (candidates svcs cs)"
proof -
  have "filter is_registration (added \<sigma> (final (updateVulcanDFromDocker E vp svcs \<sigma>))) =
        filter is_registration (filter (\<lambda>e. \<not> is_put_warning e)
          (added \<sigma> (final (updateVulcanDFromDocker E vp svcs \<sigma>))))"
    by (simp only: registrations_drop_put_warnings)
  also have "\<dots> = filter is_registration
      (DockerListContainers # concat (map (candidate_events E vp) (candidates svcs cs)))"
    by (simp only: update_added [OF assms])
  finally show ?thesis by (simp add: registrations_candidate_events)
qed

lemma candidates_single:
  assumes "\<forall>name \<in> set names. re s (TrimLeft name ''/'')"
  shows "concat (map (\<lambda>name. map (\<lambda>s. (c, TrimLeft name ''/'', s))
           (filter (\<lambda>s. re s (TrimLeft name ''/'')) [s])) names) =
         map (\<lambda>name. (c, TrimLeft name ''/'', s)) names"
  using assms by (induction names) simp_all

text \<open>
  C10. A poll pass makes one registration attempt for every candidate, that is for every
  container, every name of it and every service whose pattern matches the cleaned name,
  keyed by the cleaned name. One container whose names all match the one service has
  one attempt per name.
\<close>

theorem one_registration_per_matching_name:
  assumes "docker_ListContainers E (n_list \<sigma>) = Inr cs"
  shows "filter is_registration (added \<sigma> (final (updateVulcanDFromDocker E vulcanPath svcs \<sigma>))) =
           map (\<lambda>cand. registering (fst (snd cand))) (candidates svcs cs)
       \<and> (\<forall>c s. cs = [c] \<and> svcs = [s] \<and> (\<forall>name \<in> set (Names c). re s (TrimLeft name ''/'')) \<longrightarrow>
            filter is_registration (added \<sigma> (final (updateVulcanDFromDocker E vulcanPath svcs \<sigma>))) =
              map (\<lambda>name. registering (TrimLeft name ''/'')) (Names c)
            \<and> filter (\<lambda>e. \<not> is_put_warning e)
                (added \<sigma> (final (updateVulcanDFromDocker E vulcanPath svcs \<sigma>))) =
              DockerListContainers #
              concat (map (\<lambda>name. candidate_events E vulcanPath (c, TrimLeft name ''/'', s)) (Names c)))"
proof (intro conjI allI impI)
  show "filter is_registration (added \<sigma> (final (updateVulcanDFromDocker E vulcanPath svcs \<sigma>))) =
           map (\<lambda>cand. registering (fst (snd cand))) (candidates svcs cs)"
    by (rule update_registrations [OF assms])
next
  fix c s
  assume h: "cs = [c] \<and> svcs = [s] \<and> (\<forall>name \<in> set (Names c). re s (TrimLeft name ''/''))"
  then have cand: "candidates svcs cs = map (\<lambda>name. (c, TrimLeft name ''/'', s)) (Names c)"
    using candidates_single [of "Names c" s c] by (simp add: candidates_def)
  show "filter is_registration (added \<sigma> (final (updateVulcanDFromDocker E vulcanPath svcs \<sigma>))) =
              map (\<lambda>name. registering (TrimLeft name ''/'')) (Names c)"
    by (simp add: update_registrations [OF assms] cand comp_def)
  show "filter (\<lambda>e. \<not> is_put_warning e)
                (added \<sigma> (final (updateVulcanDFromDocker E vulcanPath svcs \<sigma>))) =
              DockerListContainers #
              concat (map (\<lambda>name. candidate_events E vulcanPath (c, TrimLeft name ''/'', s)) (Names c))"
    by (simp add: update_added [OF assms] cand comp_def)
qed

theorem one_registration_per_matching_name_witness:
  "filter is_registration
     (added init_state (final (updateVulcanDFromDocker
        (example_env\<lparr>docker_ListContainers :=
           (\<lambda>n. Inr [example_container\<lparr>Names := [''/app-1'', ''/app-one'']\<rparr>])\<rparr>)
        ''/vulcand'' [example_svc1] init_state))) =
     [registering ''app-1'', registering ''app-one'']
   \<and> calls (added init_state (final (updateVulcanDFromDocker
        (example_env\<lparr>docker_ListContainers :=
           (\<lambda>n. Inr [example_container\<lparr>Names := [''/app-1'', ''/app-one'']\<rparr>])\<rparr>)
        ''/vulcand'' [example_svc1] init_state))) =
     [DockerListContainers,
      ServerPut \<lparr>host = ''localhost'', port = 33000\<rparr> ''/vulcand'' ''svc1'' ''app-1'',
      ServerPut \<lparr>host = ''localhost'', port = 33000\<rparr> ''/vulcand'' ''svc1'' ''app-one'']"
  using one_registration_per_matching_name
    [where \<sigma> = init_state
       and E = "example_env\<lparr>docker_ListContainers :=
           (\<lambda>n. Inr [example_container\<lparr>Names := [''/app-1'', ''/app-one'']\<rparr>])\<rparr>"
       and cs = "[example_container\<lparr>Names := [''/app-1'', ''/app-one'']\<rparr>]"
       and svcs = "[example_svc1]" and vulcanPath = "''/vulcand''"]
  by (simp add: example_defs run_defs calls_def registering_def)

lemma TrimLeft_replicate:
  assumes "n = [] \<or> hd n \<noteq> CHR ''/''"
  shows "TrimLeft (replicate k (CHR ''/'') @ n) ''/'' = n"
proof -
  have "dropWhile (\<lambda>c. c = CHR ''/'') (replicate k (CHR ''/'') @ n) = dropWhile (\<lambda>c. c = CHR ''/'') n"
    by (induction k) simp_all
  also have "\<dots> = n" using assms by (cases n) auto
  finally show ?thesis by (simp add: TrimLeft_def)
qed

text \<open>
  C5, as amended. The poll pass compares a container name to the patterns after removing
  all of its leading separators: a name made of k separators and a rest that does not start
  with one is matched, and registered, as that rest.
\<close>

theorem names_matched_without_leading_separators:
  assumes "docker_ListContainers E (n_list \<sigma>) = Inr [c]"
    and "Names c = [replicate k (CHR ''/'') @ n]"
    and "n = [] \<or> hd n \<noteq> CHR ''/''"
  shows "filter is_registration (added \<sigma> (final (updateVulcanDFromDocker E vulcanPath svcs \<sigma>))) =
           map (\<lambda>s. registering n) (filter (\<lambda>s. re s n) svcs)"
  using assms(2) TrimLeft_replicate [OF assms(3), of k]
  by (simp add: update_registrations [OF assms(1)] candidates_def comp_def)

theorem names_matched_without_leading_separators_witness:
  "filter is_registration
     (added init_state (final (updateVulcanDFromDocker
        (example_env\<lparr>docker_ListContainers :=
           (\<lambda>n. Inr [example_container\<lparr>Names := [''//app-1'']\<rparr>])\<rparr>)
        ''/vulcand'' [example_svc1] init_state))) =
     [registering ''app-1'']"
  using names_matched_without_leading_separators
    [where \<sigma> = init_state
       and E = "example_env\<lparr>docker_ListContainers :=
           (\<lambda>n. Inr [example_container\<lparr>Names := [''//app-1'']\<rparr>])\<rparr>"
       and c = "example_container\<lparr>Names := [''//app-1'']\<rparr>"
       and k = "Suc (Suc 0)" and n = "''app-1''"
       and svcs = "[example_svc1]" and vulcanPath = "''/vulcand''"]
  by (simp add: example_defs run_defs registering_def)

text \<open>
  C5 as stated fails: the name \<open>//app-1\<close> is cleaned to \<open>app-1\<close>, not to \<open>/app-1\<close>; a
  service whose pattern accepts only \<open>/app-1\<close> is not matched, one that accepts only
  \<open>app-1\<close> is.
\<close>

theorem single_separator_stripping_counterexample:
  "TrimLeft ''//app-1'' ''/'' = ''app-1''
   \<and> TrimLeft ''//app-1'' ''/'' \<noteq> ''/app-1''
   \<and> filter is_registration
       (added init_state (final (updateVulcanDFromDocker (example_env_named [''//app-1''])
          ''/vulcand'' [example_svc_exact ''/app-1''] init_state))) = []
   \<and> filter is_registration
       (added init_state (final (updateVulcanDFromDocker (example_env_named [''//app-1''])
          ''/vulcand'' [example_svc_exact ''app-1''] init_state))) =
     [registering ''app-1'']"
  by (simp add: example_env_named_def example_svc_exact_def example_defs run_defs registering_def)

section \<open>The loop: results\<close>

lemma calls_append [simp]: "calls (xs @ ys) = calls xs @ calls ys"
  by (simp add: calls_def)

lemma calls_Cons_Log [simp]: "calls (Log l m fs # es) = calls es"
  by (simp add: calls_def)

lemma calls_Nil [simp]: "calls [] = []"
  by (simp add: calls_def)

lemma calls_Cons_call [simp]: "is_call e \<Longrightarrow> calls (e # es) = e # calls es"
  by (simp add: calls_def)

lemma calls_invalid_warnings [simp]: "calls (map (invalid_warning E bp) ns) = []"
  by (induction ns) (simp_all add: calls_def invalid_warning_def)

lemma loop_body_Tick:
  "loop_body E Tick svcs \<sigma> =
     (case updateVulcanDFromDocker E (VulcandEtcdBase (opts E)) svcs (logf DebugLevel ''tick'' [] \<sigma>) of
        Exited \<sigma>' \<Rightarrow> Exited \<sigma>' | Returned u \<sigma>2 \<Rightarrow> Returned svcs \<sigma>2)"
  by (simp add: loop_body_def)

lemma final_case_outcome [simp]:
  "final (case x of Exited \<sigma>' \<Rightarrow> Exited \<sigma>' | Returned u \<sigma>2 \<Rightarrow> Returned v \<sigma>2) = final x"
  by (cases x) simp_all

lemma is_exit_case_outcome [simp]:
  "is_exit (case x of Exited \<sigma>' \<Rightarrow> Exited \<sigma>' | Returned u \<sigma>2 \<Rightarrow> Returned v \<sigma>2) = is_exit x"
  by (cases x) simp_all

lemma loop_body_Tick_final:
  "final (loop_body E Tick svcs \<sigma>) =
     final (updateVulcanDFromDocker E (VulcandEtcdBase (opts E)) svcs (logf DebugLevel ''tick'' [] \<sigma>))"
  by (simp add: loop_body_Tick)

lemma loop_body_Tick_Returned:
  assumes "docker_ListContainers E (n_list \<sigma>) = Inr cs"
  shows "\<exists>\<sigma>'. loop_body E Tick svcs \<sigma> = Returned svcs \<sigma>'
     \<and> calls (added \<sigma> \<sigma>') = DockerListContainers #
         calls (concat (map (candidate_events E (VulcandEtcdBase (opts E))) (candidates svcs cs)))"
proof -
  let ?\<sigma>0 = "logf DebugLevel ''tick'' [] \<sigma>"
  from assms have "docker_ListContainers E (n_list ?\<sigma>0) = Inr cs" by simp
  from update_Returned [OF this]
  obtain \<sigma>' es where r: "updateVulcanDFromDocker E (VulcandEtcdBase (opts E)) svcs ?\<sigma>0 = Returned () \<sigma>'"
    "trace \<sigma>' = trace ?\<sigma>0 @ DockerListContainers # es"
    "filter (\<lambda>e. \<not> is_put_warning e) es =
       concat (map (candidate_events E (VulcandEtcdBase (opts E))) (candidates svcs cs))"
    by blast
  from r(2) have "added \<sigma> \<sigma>' = Log DebugLevel ''tick'' [] # DockerListContainers # es"
    by (simp add: added_def)
  then have "calls (added \<sigma> \<sigma>') = DockerListContainers # calls es"
    by simp
  also have "calls es = calls (filter (\<lambda>e. \<not> is_put_warning e) es)"
    by (simp only: calls_drop_put_warnings)
  finally show ?thesis using r(1,3) by (simp add: loop_body_Tick)
qed

lemma loop_body_DefChange_Returned:
  assumes "etcd_Get E (n_get \<sigma>) (ServiceDefinitionBase (opts E)) = Inr nodes"
    and "docker_ListContainers E (n_list \<sigma>) = Inr cs"
  shows "\<exists>\<sigma>'. loop_body E DefChange svcs \<sigma> =
        Returned (map (service_of E) (filter (well_formed E) nodes)) \<sigma>'
     \<and> calls (added \<sigma> \<sigma>') =
         EtcdGet (ServiceDefinitionBase (opts E)) #
         map (\<lambda>s. BackendPut (VulcandEtcdBase (opts E)) (key s))
           (map (service_of E) (filter (well_formed E) nodes)) @
         DockerListContainers #
         calls (concat (map (candidate_events E (VulcandEtcdBase (opts E)))
           (candidates (map (service_of E) (filter (well_formed E) nodes)) cs)))"
proof -
  let ?base = "ServiceDefinitionBase (opts E)" and ?vb = "VulcandEtcdBase (opts E)"
  let ?svcs = "map (service_of E) (filter (well_formed E) nodes)"
  let ?\<sigma>0 = "logf InfoLevel ''detected change to service definitions'' [] \<sigma>"
  let ?\<sigma>1 = "?\<sigma>0\<lparr>n_get := Suc (n_get ?\<sigma>0),
          trace := trace ?\<sigma>0 @ EtcdGet ?base #
            map (invalid_warning E ?base) (filter (\<lambda>n. \<not> well_formed E n) nodes)\<rparr>"
  let ?\<sigma>2 = "logf DebugLevel ''found service definitions'' [(''count'', FNum (int (length ?svcs)))] ?\<sigma>1"
  let ?\<sigma>3 = "initializeVulcandBackends E ?vb ?svcs ?\<sigma>2"
  from assms(1) have "etcd_Get E (n_get ?\<sigma>0) ?base = Inr nodes" by simp
  from mustGetServices_Returned [OF this]
  have g: "mustGetServices E ?base ?\<sigma>0 = Returned ?svcs ?\<sigma>1" .
  have t3: "trace ?\<sigma>3 = trace ?\<sigma>2 @ concat (map (backend_events E ?vb) (enumerate (n_backend_put ?\<sigma>2) ?svcs))"
    by (rule initialize_trace)
  from assms(2) have "docker_ListContainers E (n_list ?\<sigma>3) = Inr cs"
    by (simp add: logf_def emit_def)
  from update_Returned [OF this]
  obtain \<sigma>' es where r: "updateVulcanDFromDocker E ?vb ?svcs ?\<sigma>3 = Returned () \<sigma>'"
    "trace \<sigma>' = trace ?\<sigma>3 @ DockerListContainers # es"
    "filter (\<lambda>e. \<not> is_put_warning e) es =
       concat (map (candidate_events E ?vb) (candidates ?svcs cs))"
    by blast
  have "added \<sigma> \<sigma>' = Log InfoLevel ''detected change to service definitions'' [] #
      EtcdGet ?base # map (invalid_warning E ?base) (filter (\<lambda>n. \<not> well_formed E n) nodes) @
      Log DebugLevel ''found service definitions'' [(''count'', FNum (int (length ?svcs)))] #
      concat (map (backend_events E ?vb) (enumerate (n_backend_put ?\<sigma>2) ?svcs)) @
      DockerListContainers # es"
    unfolding added_def r(2) t3 by (simp add: logf_def emit_def)
  then have "calls (added \<sigma> \<sigma>') = EtcdGet ?base #
      map (\<lambda>s. BackendPut ?vb (key s)) ?svcs @ DockerListContainers # calls es"
    by (simp add: calls_backend_events)
  also have "calls es = calls (filter (\<lambda>e. \<not> is_put_warning e) es)"
    by (simp only: calls_drop_put_warnings)
  finally have c: "calls (added \<sigma> \<sigma>') = EtcdGet ?base #
      map (\<lambda>s. BackendPut ?vb (key s)) ?svcs @ DockerListContainers #
      calls (concat (map (candidate_events E ?vb) (candidates ?svcs cs)))"
    by (simp only: r(3))
  have "loop_body E DefChange svcs \<sigma> = Returned ?svcs \<sigma>'"
    by (simp only: loop_body_def trigger.case g outcome.case r(1))
  with c show ?thesis by blast
qed

text \<open>
  C2. A tick makes no \<open>Get\<close> and no Backend upsert and keeps the service set: its calls
  are the container listing and the Server upserts of the poll pass. A definition
  change reads the definitions, replaces the service set by the loaded one, upserts a
  Backend for every loaded service and then runs the poll pass on the loaded set, in that
  order.
\<close>

theorem loop_body_tick_polls_change_reloads:
  "n_get (final (loop_body E Tick svcs \<sigma>)) = n_get \<sigma>
   \<and> n_backend_put (final (loop_body E Tick svcs \<sigma>)) = n_backend_put \<sigma>
   \<and> (\<forall>cs. docker_ListContainers E (n_list \<sigma>) = Inr cs \<longrightarrow>
        (\<exists>\<sigma>'. loop_body E Tick svcs \<sigma> = Returned svcs \<sigma>'
           \<and> calls (added \<sigma> \<sigma>') = DockerListContainers #
               calls (concat (map (candidate_events E (VulcandEtcdBase (opts E)))
                 (candidates svcs cs)))))
   \<and> (\<forall>nodes cs. etcd_Get E (n_get \<sigma>) (ServiceDefinitionBase (opts E)) = Inr nodes
          \<and> docker_ListContainers E (n_list \<sigma>) = Inr cs \<longrightarrow>
        (\<exists>\<sigma>'. loop_body E DefChange svcs \<sigma> =
             Returned (map (service_of E) (filter (well_formed E) nodes)) \<sigma>'
           \<and> calls (added \<sigma> \<sigma>') =
               EtcdGet (ServiceDefinitionBase (opts E)) #
               map (\<lambda>s. BackendPut (VulcandEtcdBase (opts E)) (key s))
                 (map (service_of E) (filter (well_formed E) nodes)) @
               DockerListContainers #
               calls (concat (map (candidate_events E (VulcandEtcdBase (opts E)))
                 (candidates (map (service_of E) (filter (well_formed E) nodes)) cs)))))"
proof (intro conjI allI impI)
  show "n_get (final (loop_body E Tick svcs \<sigma>)) = n_get \<sigma>"
    by (simp add: loop_body_Tick_final update_final_counters)
  show "n_backend_put (final (loop_body E Tick svcs \<sigma>)) = n_backend_put \<sigma>"
    by (simp add: loop_body_Tick_final update_final_counters)
next
  fix cs
  assume "docker_ListContainers E (n_list \<sigma>) = Inr cs"
  then show "\<exists>\<sigma>'. loop_body E Tick svcs \<sigma> = Returned svcs \<sigma>'
           \<and> calls (added \<sigma> \<sigma>') = DockerListContainers #
               calls (concat (map (candidate_events E (VulcandEtcdBase (opts E)))
                 (candidates svcs cs)))"
    by (rule loop_body_Tick_Returned)
next
  fix nodes cs
  assume "etcd_Get E (n_get \<sigma>) (ServiceDefinitionBase (opts E)) = Inr nodes
          \<and> docker_ListContainers E (n_list \<sigma>) = Inr cs"
  then show "\<exists>\<sigma>'. loop_body E DefChange svcs \<sigma> =
             Returned (map (service_of E) (filter (well_formed E) nodes)) \<sigma>'
           \<and> calls (added \<sigma> \<sigma>') =
               EtcdGet (ServiceDefinitionBase (opts E)) #
               map (\<lambda>s. BackendPut (VulcandEtcdBase (opts E)) (key s))
                 (map (service_of E) (filter (well_formed E) nodes)) @
               DockerListContainers #
               calls (concat (map (candidate_events E (VulcandEtcdBase (opts E)))
                 (candidates (map (service_of E) (filter (well_formed E) nodes)) cs)))"
    using loop_body_DefChange_Returned by blast
qed


theorem loop_body_tick_polls_change_reloads_witness:
  "(\<exists>\<sigma>'. loop_body example_env Tick [example_svc1] init_state = Returned [example_svc1] \<sigma>'
       \<and> calls (added init_state \<sigma>') =
           [DockerListContainers,
            ServerPut \<lparr>host = ''localhost'', port = 33000\<rparr> ''/vulcand'' ''svc1'' ''app-1''])
   \<and> (\<exists>\<sigma>'. loop_body example_env DefChange [] init_state = Returned [example_svc1] \<sigma>'
       \<and> calls (added init_state \<sigma>') =
           [EtcdGet ''/publication'', BackendPut ''/vulcand'' ''svc1'', DockerListContainers,
            ServerPut \<lparr>host = ''localhost'', port = 33000\<rparr> ''/vulcand'' ''svc1'' ''app-1''])"
proof -
  let ?a = "\<lparr>Key = ''svc1'', Value = ''app-''\<rparr>" and ?b = "\<lparr>Key = ''svc2'', Value = ''(''\<rparr>"
  have hg: "etcd_Get example_env (n_get init_state) (ServiceDefinitionBase (opts example_env)) =
      Inr [?a, ?b]"
    by (simp add: example_env_def)
  have hl: "docker_ListContainers example_env (n_list init_state) = Inr [example_container]"
    by (simp add: example_env_def)
  have paths: "ServiceDefinitionBase (opts example_env) = ''/publication''"
    "VulcandEtcdBase (opts example_env) = ''/vulcand''"
    by (simp_all add: example_env_def example_opts_def)
  have svcs: "map (service_of example_env) (filter (well_formed example_env) [?a, ?b]) = [example_svc1]"
    by (simp add: well_formed_def service_of_def example_env_def example_newService_def
        example_svc1_def)
  have puts: "calls (concat (map (candidate_events example_env ''/vulcand'')
        (candidates [example_svc1] [example_container]))) =
      [ServerPut \<lparr>host = ''localhost'', port = 33000\<rparr> ''/vulcand'' ''svc1'' ''app-1'']"
    by (simp add: candidates_def candidate_events_def example_env_def example_opts_def
        example_container_def example_svc1_def TrimLeft_def findExternalPort_def newServer_def
        registering_def calls_def)
  note inst1 = loop_body_tick_polls_change_reloads
    [where E = example_env and \<sigma> = init_state and svcs = "[example_svc1]"]
  note inst2 = loop_body_tick_polls_change_reloads
    [where E = example_env and \<sigma> = init_state and svcs = "[]"]
  from inst1 hl have "\<exists>\<sigma>'. loop_body example_env Tick [example_svc1] init_state =
        Returned [example_svc1] \<sigma>'
      \<and> calls (added init_state \<sigma>') = DockerListContainers #
          calls (concat (map (candidate_events example_env (VulcandEtcdBase (opts example_env)))
            (candidates [example_svc1] [example_container])))"
    by blast
  then have 1: "\<exists>\<sigma>'. loop_body example_env Tick [example_svc1] init_state =
        Returned [example_svc1] \<sigma>'
      \<and> calls (added init_state \<sigma>') =
           [DockerListContainers,
            ServerPut \<lparr>host = ''localhost'', port = 33000\<rparr> ''/vulcand'' ''svc1'' ''app-1'']"
    by (simp only: paths puts)
  from inst2 hg hl have "\<exists>\<sigma>'. loop_body example_env DefChange [] init_state =
        Returned (map (service_of example_env) (filter (well_formed example_env) [?a, ?b])) \<sigma>'
      \<and> calls (added init_state \<sigma>') =
          EtcdGet (ServiceDefinitionBase (opts example_env)) #
          map (\<lambda>s. BackendPut (VulcandEtcdBase (opts example_env)) (key s))
            (map (service_of example_env) (filter (well_formed example_env) [?a, ?b])) @
          DockerListContainers #
          calls (concat (map (candidate_events example_env (VulcandEtcdBase (opts example_env)))
            (candidates (map (service_of example_env) (filter (well_formed example_env) [?a, ?b]))
               [example_container])))"
    by blast
  then have 2: "\<exists>\<sigma>'. loop_body example_env DefChange [] init_state = Returned [example_svc1] \<sigma>'
      \<and> calls (added init_state \<sigma>') =
           [EtcdGet ''/publication'', BackendPut ''/vulcand'' ''svc1'', DockerListContainers,
            ServerPut \<lparr>host = ''localhost'', port = 33000\<rparr> ''/vulcand'' ''svc1'' ''app-1'']"
    unfolding svcs paths puts by (simp add: example_svc1_def)
  from 1 2 show ?thesis by (rule conjI)
qed

section \<open>The exits of a pass: results\<close>

lemma loop_body_Tick_exit_iff:
  "is_exit (loop_body E Tick svcs \<sigma>) \<longleftrightarrow> isl (docker_ListContainers E (n_list \<sigma>))"
  by (simp add: loop_body_Tick update_exit_iff)

lemma loop_body_DefChange_exit_iff:
  "is_exit (loop_body E DefChange svcs \<sigma>) \<longleftrightarrow>
     isl (etcd_Get E (n_get \<sigma>) (ServiceDefinitionBase (opts E)))
     \<or> isl (docker_ListContainers E (n_list \<sigma>))"
proof (cases "etcd_Get E (n_get \<sigma>) (ServiceDefinitionBase (opts E))")
  case (Inl err)
  then have "is_exit (mustGetServices E (ServiceDefinitionBase (opts E))
      (logf InfoLevel ''detected change to service definitions'' [] \<sigma>))"
    by (simp add: mustGetServices_exit_iff)
  with Inl show ?thesis
    by (cases "mustGetServices E (ServiceDefinitionBase (opts E))
      (logf InfoLevel ''detected change to service definitions'' [] \<sigma>)")
       (simp_all add: loop_body_def)
next
  case (Inr nodes)
  then have "etcd_Get E (n_get (logf InfoLevel ''detected change to service definitions'' [] \<sigma>))
      (ServiceDefinitionBase (opts E)) = Inr nodes"
    by simp
  from mustGetServices_Returned [OF this] Inr show ?thesis
    by (simp add: loop_body_def update_exit_iff)
qed

section \<open>The change signal: results\<close>

lemma step_healthy:
  assumes "step a c = Some c'" and "healthy c" and "a \<noteq> WatchError" and "a \<noteq> PassFatal"
  shows "healthy c' \<and> upstream c' + pending c' + reloads c' = upstream c + pending c + reloads c"
  using assms
  by (cases a) (auto simp: step_def healthy_def pending_def split: if_splits)

lemma exec_healthy:
  "exec acts c = Some c' \<Longrightarrow> healthy c \<Longrightarrow> WatchError \<notin> set acts \<Longrightarrow> PassFatal \<notin> set acts \<Longrightarrow>
     healthy c' \<and> upstream c' + pending c' + reloads c' = upstream c + pending c + reloads c"
proof (induction acts arbitrary: c)
  case Nil
  then show ?case by simp
next
  case (Cons a acts)
  from Cons.prems(1) obtain c1 where s: "step a c = Some c1" and e: "exec acts c1 = Some c'"
    by (auto split: option.splits)
  from Cons.prems(3,4) have na: "a \<noteq> WatchError" "a \<noteq> PassFatal"
    and ns: "WatchError \<notin> set acts" "PassFatal \<notin> set acts"
    by auto
  from step_healthy [OF s Cons.prems(2) na]
  have h1: "healthy c1"
    and c1: "upstream c1 + pending c1 + reloads c1 = upstream c + pending c + reloads c"
    by simp_all
  from Cons.IH [OF e h1 ns] c1 show ?case by simp
qed

lemma settled_healthy_empty:
  assumes "settled c" and "healthy c"
  shows "upstream c = 0 \<and> pending c = 0"
proof -
  from assms have l: "loop_at c = AtSelect"
    by (cases "loop_at c") (simp_all add: settled_def healthy_def step_def)
  with assms have r: "relay c = AtReceive"
    by (cases "relay c") (simp_all add: settled_def healthy_def step_def)
  with assms have "upstream c = 0"
    by (simp add: settled_def healthy_def step_def split: if_splits)
  with r show ?thesis by (simp add: pending_def)
qed

lemma exec_drain_all:
  "exec (drain_all n)
     \<lparr>upstream = n + m, receiver_open = True, watch = Watching, relay = AtReceive,
      loop_at = AtSelect, reloads = k, proc = Running\<rparr> =
   Some \<lparr>upstream = m, receiver_open = True, watch = Watching, relay = AtReceive,
      loop_at = AtSelect, reloads = k + n, proc = Running\<rparr>"
  by (induction n arbitrary: k) (simp_all add: step_def)

text \<open>
  C6, as amended. While the watch has not failed and no pass ends the process, the change
  signal does not coalesce: along every run the events still upstream, the pending
  notification and the reloads done add up to the same number; while a notification is
  pending the next event cannot be handed over; and when nothing can move any more every
  event of the burst has had its own reload. A burst of \<open>n\<close> events that arrives during
  a pass is taken through by the schedule \<open>PassDone # drain_all n\<close>, with \<open>n\<close> reloads.
\<close>

theorem one_reload_per_watch_event:
  "(\<forall>c'. healthy c \<and> WatchError \<notin> set acts \<and> PassFatal \<notin> set acts \<and> exec acts c = Some c' \<longrightarrow>
       healthy c'
       \<and> upstream c' + pending c' + reloads c' = upstream c + pending c + reloads c
       \<and> (pending c' = 1 \<longrightarrow> step Handover c' = None)
       \<and> (settled c' \<longrightarrow> reloads c' = reloads c + upstream c + pending c))
   \<and> exec (PassDone # drain_all n) (burst n) = Some ((burst 0)\<lparr>loop_at := AtSelect, reloads := n\<rparr>)
   \<and> settled ((burst 0)\<lparr>loop_at := AtSelect, reloads := n\<rparr>)"
proof (intro conjI allI impI)
  fix c'
  assume h: "healthy c \<and> WatchError \<notin> set acts \<and> PassFatal \<notin> set acts \<and> exec acts c = Some c'"
  then have "healthy c' \<and> upstream c' + pending c' + reloads c' = upstream c + pending c + reloads c"
    using exec_healthy [of acts c c'] by blast
  then show hc: "healthy c'"
    and inv: "upstream c' + pending c' + reloads c' = upstream c + pending c + reloads c"
    by simp_all
  {
    assume "pending c' = 1"
    with hc show "step Handover c' = None"
      by (simp add: pending_def healthy_def step_def split: if_splits)
  }
  {
    assume "settled c'"
    from settled_healthy_empty [OF this hc] inv
    show "reloads c' = reloads c + upstream c + pending c" by simp
  }
next
  show "exec (PassDone # drain_all n) (burst n) = Some ((burst 0)\<lparr>loop_at := AtSelect, reloads := n\<rparr>)"
    using exec_drain_all [of n 0 0] by (simp add: burst_def step_def)
  show "settled ((burst 0)\<lparr>loop_at := AtSelect, reloads := n\<rparr>)"
    by (simp add: settled_def burst_def step_def)
qed

theorem one_reload_per_watch_event_witness:
  "healthy (burst 3)
   \<and> exec [Handover, PassDone, Signal, PassDone, TickPass, Handover, PassDone, Signal, Handover,
            PassDone, Signal, PassDone] (burst 3) =
       Some ((burst 0)\<lparr>loop_at := AtSelect, reloads := 3\<rparr>)
   \<and> settled ((burst 0)\<lparr>loop_at := AtSelect, reloads := 3\<rparr>)
   \<and> reloads ((burst 0)\<lparr>loop_at := AtSelect, reloads := 3\<rparr>) =
       reloads (burst 3) + upstream (burst 3) + pending (burst 3)"
proof -
  let ?acts = "[Handover, PassDone, Signal, PassDone, TickPass, Handover, PassDone, Signal,
                Handover, PassDone, Signal, PassDone]"
  let ?c' = "(burst 0)\<lparr>loop_at := AtSelect, reloads := 3\<rparr>"
  have h: "healthy (burst 3)" by (simp add: healthy_def burst_def)
  have n: "WatchError \<notin> set ?acts" "PassFatal \<notin> set ?acts" by simp_all
  have e: "exec ?acts (burst 3) = Some ?c'" by (simp add: burst_def step_def)
  have q: "settled ?c'" by (simp add: settled_def burst_def step_def)
  from one_reload_per_watch_event [of "burst 3" ?acts] h n e q
  have "reloads ?c' = reloads (burst 3) + upstream (burst 3) + pending (burst 3)" by blast
  with h e q show ?thesis by blast
qed

text \<open>
  C6 as stated fails: two change events that arrive during a pass lead to two reloads, one
  per change. After the first is handed over its notification is pending, and the second
  cannot be handed over: it waits upstream, it is not merged into the pending one.
\<close>

theorem burst_not_coalesced_counterexample:
  "exec [Handover, PassDone, Signal, Handover, PassDone, Signal, PassDone] (burst 2) =
     Some ((burst 0)\<lparr>loop_at := AtSelect, reloads := 2\<rparr>)
   \<and> exec [Handover] (burst 2) = Some ((burst 1)\<lparr>relay := AtSend\<rparr>)
   \<and> step Handover ((burst 1)\<lparr>relay := AtSend\<rparr>) = None"
  by (simp add: burst_def step_def)

text \<open>
  C4. The process should end only when the definitions or the inventory are unreachable
  or the retry policy gives up. The code departs from this: after one failed watch the
  retry policy calls \<open>client.Watch\<close> again with the receiver the first call closed, and
  the process ends in a panic, at the next change event (send on the closed channel) or
  at the next failure (close of the closed channel), although the policy has not given
  up. The exit the claim names is the third run: the policy gives up and the process
  leaves through \<open>log.Fatal\<close>.
\<close>

theorem retried_watch_panics:
  "exec [WatchError, Retry, Handover] (burst 1) =
     Some ((burst 1)\<lparr>receiver_open := False, proc := Panicked\<rparr>)
   \<and> exec [WatchError, Retry, WatchError] (burst 0) =
     Some ((burst 0)\<lparr>receiver_open := False, proc := Panicked\<rparr>)
   \<and> exec [WatchError, GiveUp] (burst 0) =
     Some ((burst 0)\<lparr>receiver_open := False, watch := BackingOff, proc := ExitedFatal\<rparr>)"
  by (simp add: burst_def step_def)

text \<open>
  After a failed watch the relay signals a definition change with no change event: here
  two reloads with nothing upstream.
\<close>

lemma closed_receiver_signals_without_event:
  "exec [WatchError, PassDone, RelayClosed, Signal, PassDone, RelayClosed, Signal] (burst 0) =
     Some ((burst 0)\<lparr>receiver_open := False, watch := BackingOff, reloads := 2\<rparr>)"
  by (simp add: burst_def step_def)

end
